theory Spec2Isabelle
  imports Complex_Main "HOL-Library.Log_Nat" "HOL-Library.Sublist"
begin

section \<open>JavaScript values\<close>

text \<open>
  The stores are TypeScript. A field that may be missing from an object received from the
  backend is an \<open>option\<close>: \<open>None\<close> is \<open>undefined\<close>. The counters and quota figures arrive
  as integers (they count prompts and tests). A JavaScript number is a binary64 value: an
  integer becomes the nearest one, and every addition, multiplication and division is
  rounded to the nearest binary64 number, ties to even. The model rounds where the code
  does, in the normal range (no overflow to infinity, no subnormal numbers); the theorems
  that speak of exact sums carry the bound under which the code's sums are exact.
\<close>

text \<open>\<open>x || d\<close> on a number: \<open>undefined\<close> and \<open>0\<close> are falsy.\<close>

definition or_default :: "int option \<Rightarrow> int \<Rightarrow> int" where
  "or_default x d = (case x of None \<Rightarrow> d | Some v \<Rightarrow> if v = 0 then d else v)"

text \<open>\<open>x || d\<close> on a string: \<open>undefined\<close> and the empty string are falsy.\<close>

definition or_default_str :: "string option \<Rightarrow> string \<Rightarrow> string" where
  "or_default_str x d = (case x of None \<Rightarrow> d | Some v \<Rightarrow> if v = [] then d else v)"

text \<open>\<open>x ?? d\<close>: only a missing value takes the default.\<close>

definition nullish :: "'a option \<Rightarrow> 'a \<Rightarrow> 'a" where
  "nullish x d = (case x of None \<Rightarrow> d | Some v \<Rightarrow> v)"

subsection \<open>Binary64 arithmetic\<close>

text \<open>\<open>ilog2 x\<close> is the exponent \<open>e\<close> with \<open>2^e \<le> x < 2^(e+1)\<close>, for positive \<open>x\<close>.\<close>

definition ilog2 :: "rat \<Rightarrow> int" where
  "ilog2 x = (let (a, b) = quotient_of x; d = bitlen a - bitlen b
              in if 2 powi d \<le> x then d else d - 1)"

definition round_half_even :: "rat \<Rightarrow> int" where
  "round_half_even q = (let f = \<lfloor>q\<rfloor>; r = q - of_int f
     in if r < 1/2 then f else if 1/2 < r then f + 1 else if even f then f else f + 1)"

text \<open>
  Rounding to the nearest number with a 53-bit significand (normal range: the values met
  here are quotients of counters, far from overflow and from the subnormal numbers).
\<close>

definition binary64 :: "rat \<Rightarrow> rat" where
  "binary64 x = (if x = 0 then 0 else
     let u = 2 powi (ilog2 \<bar>x\<bar> - 52)
     in sgn x * of_int (round_half_even (\<bar>x\<bar> / u)) * u)"

definition js_div :: "rat \<Rightarrow> rat \<Rightarrow> rat" where
  "js_div a b = binary64 (a / b)"

definition js_mul :: "rat \<Rightarrow> rat \<Rightarrow> rat" where
  "js_mul a b = binary64 (a * b)"

definition js_add :: "rat \<Rightarrow> rat \<Rightarrow> rat" where
  "js_add a b = binary64 (a + b)"

text \<open>An integer of the payload, as the number the code computes with.\<close>

definition js_num :: "int \<Rightarrow> rat" where
  "js_num v = binary64 (of_int v)"

text \<open>\<open>Math.round\<close>: the nearest integer, a tie going up.\<close>

definition Math_round :: "rat \<Rightarrow> int" where
  "Math_round x = \<lfloor>x + 1/2\<rfloor>"

section \<open>The scan store\<close>

record PlatformState =
  status :: string
  total :: "int option"
  submitted :: "int option"
  collected :: "int option"

record ScanComplete =
  total_prompts :: int
  successful_prompts :: int
  mention_rate :: rat
  citation_rate :: rat

text \<open>A \<open>Record<string, PlatformState>\<close> is the list of its entries, in key order.\<close>

type_synonym platform_map = "(string \<times> PlatformState) list"

record scan_store =
  isScanning :: bool
  isStarting :: bool
  phase :: string
  progress :: int
  countdownSeconds :: "int option"
  platforms :: platform_map
  lastResult :: "ScanComplete option"

text \<open>
  The optional field \<open>countdownSeconds?: number | null\<close> of a progress payload has three
  shapes: missing, \<open>null\<close>, or a number.
\<close>

datatype countdown_field = Missing | Null | Seconds int

record ScanProgress =
  p_phase :: "string option"
  p_platforms :: "platform_map option"
  p_countdownSeconds :: countdown_field

text \<open>The loop of \<open>updateProgress\<close> over \<open>Object.values(progressData.platforms)\<close>.\<close>

fun sum_counters :: "PlatformState list \<Rightarrow> rat \<times> rat \<times> rat \<Rightarrow> rat \<times> rat \<times> rat" where
  "sum_counters [] acc = acc"
| "sum_counters (state # rest) (totalSubmitted, totalCollected, totalTasks) =
     sum_counters rest
       (js_add totalSubmitted (js_num (or_default (submitted state) 0)),
        js_add totalCollected (js_num (or_default (collected state) 0)),
        js_add totalTasks (js_num (or_default (total state) 0)))"

definition updateProgress :: "scan_store \<Rightarrow> ScanProgress option \<Rightarrow> scan_store" where
  "updateProgress s progressData =
     (case progressData of
        None \<Rightarrow> s
      | Some pd \<Rightarrow>
          let s1 = (case p_phase pd of
                      None \<Rightarrow> s
                    | Some ph \<Rightarrow> if ph = [] then s else s\<lparr>phase := ph\<rparr>);
              s2 = (case p_platforms pd of
                      None \<Rightarrow> s1
                    | Some ps \<Rightarrow>
                        let s1' = s1\<lparr>platforms := ps\<rparr>;
                            (totalSubmitted, totalCollected, totalTasks) =
                               sum_counters (map snd ps) (0, 0, 0)
                        in if 0 < totalTasks then
                             let submissionProgress =
                                   js_mul (js_div totalSubmitted totalTasks) 50;
                                 collectionProgress =
                                   js_mul (js_div totalCollected totalTasks) 50
                             in s1'\<lparr>progress :=
                                      Math_round (js_add submissionProgress collectionProgress)\<rparr>
                           else s1')
          in (case p_countdownSeconds pd of
                Missing \<Rightarrow> s2
              | Null \<Rightarrow> s2\<lparr>countdownSeconds := None\<rparr>
              | Seconds n \<Rightarrow> s2\<lparr>countdownSeconds := Some n\<rparr>))"

text \<open>
  The percent that \<open>updateScanProgress\<close>, the handler of the older plain-JavaScript front end,
  renders for a payload: it starts from \<open>let percent = 0\<close>.
\<close>

definition updateScanProgress_percent :: "ScanProgress \<Rightarrow> int" where
  "updateScanProgress_percent pd =
     (let (totalSubmitted, totalCollected, totalTasks) =
            (case p_platforms pd of
               None \<Rightarrow> (0, 0, 0)
             | Some ps \<Rightarrow> sum_counters (map snd ps) (0, 0, 0))
      in if 0 < totalTasks then
           Math_round (js_add (js_mul (js_div totalSubmitted totalTasks) 50)
                              (js_mul (js_div totalCollected totalTasks) 50))
         else 0)"

text \<open>
  What the older handler does to the countdown box: shown for a number, hidden when the
  field is missing or \<open>null\<close>.
\<close>

definition updateScanProgress_countdown_shown :: "ScanProgress \<Rightarrow> bool" where
  "updateScanProgress_countdown_shown pd =
     (case p_countdownSeconds pd of
        Seconds n \<Rightarrow> True
      | Missing \<Rightarrow> False
      | Null \<Rightarrow> False)"

definition setCountdown :: "scan_store \<Rightarrow> int \<Rightarrow> scan_store" where
  "setCountdown s seconds = s\<lparr>countdownSeconds := Some seconds\<rparr>"

text \<open>The sums the specification speaks of.\<close>

definition sum_submitted :: "platform_map \<Rightarrow> int" where
  "sum_submitted ps = (\<Sum>st\<leftarrow>map snd ps. or_default (submitted st) 0)"

definition sum_collected :: "platform_map \<Rightarrow> int" where
  "sum_collected ps = (\<Sum>st\<leftarrow>map snd ps. or_default (collected st) 0)"

definition sum_total :: "platform_map \<Rightarrow> int" where
  "sum_total ps = (\<Sum>st\<leftarrow>map snd ps. or_default (total st) 0)"

text \<open>
  The range in which the code adds the counters exactly: for each of the three counters
  the magnitudes over all platforms add up to at most \<open>2^53\<close>.
\<close>

definition safe_counters :: "platform_map \<Rightarrow> bool" where
  "safe_counters ps =
     ((\<Sum>st\<leftarrow>map snd ps. \<bar>or_default (submitted st) 0\<bar>) \<le> 2 ^ 53
      \<and> (\<Sum>st\<leftarrow>map snd ps. \<bar>or_default (collected st) 0\<bar>) \<le> 2 ^ 53
      \<and> (\<Sum>st\<leftarrow>map snd ps. \<bar>or_default (total st) 0\<bar>) \<le> 2 ^ 53)"

text \<open>A payload with one platform and nothing else, and a store to receive it.\<close>

definition one_platform :: "int \<Rightarrow> int \<Rightarrow> int \<Rightarrow> ScanProgress" where
  "one_platform t sub col =
     \<lparr>p_phase = None,
      p_platforms = Some [(''chatgpt'',
         \<lparr>status = ''collecting'', total = Some t, submitted = Some sub, collected = Some col\<rparr>)],
      p_countdownSeconds = Missing\<rparr>"

definition fresh_scan :: scan_store where
  "fresh_scan = \<lparr>isScanning = True, isStarting = False, phase = ''initializing'', progress = 0,
     countdownSeconds = None, platforms = [], lastResult = None\<rparr>"

section \<open>Per-platform progress and the progress bar\<close>

text \<open>
  A number computed from fields that may be missing is \<open>NaN\<close> when one is.
\<close>

datatype jsnum = Num int | NaN



section \<open>The user-interface store\<close>

record MessageModalState =
  visible :: bool
  title :: string
  message :: string
  mtype :: string

record ui_store =
  currentView :: string
  message_modal :: MessageModalState
  authRequired :: bool
  authRequiredData :: "(string \<times> string list) list"

definition showView :: "string \<Rightarrow> ui_store \<Rightarrow> ui_store" where
  "showView view u = u\<lparr>currentView := view\<rparr>"

definition showMessage :: "string \<Rightarrow> string \<Rightarrow> string \<Rightarrow> ui_store \<Rightarrow> ui_store" where
  "showMessage msg ttl ty u =
     u\<lparr>message_modal := \<lparr>visible = True, title = ttl, message = msg, mtype = ty\<rparr>\<rparr>"

definition showAuthRequiredModal :: "(string \<times> string list) list \<Rightarrow> ui_store \<Rightarrow> ui_store" where
  "showAuthRequiredModal missingAuth u = u\<lparr>authRequiredData := missingAuth, authRequired := True\<rparr>"

section \<open>The products store: the quota snapshot\<close>

record DailyUsage =
  current :: int
  limit :: int
  remaining :: jsnum
  effectiveRemaining :: "jsnum option"
  pendingEvaluations :: int
  isUnlimited :: bool
  plan :: string

text \<open>The answer of \<open>check_daily_usage\<close>; any field may be missing.\<close>

record usage_response =
  u_current :: "int option"
  u_limit :: "int option"
  u_remaining :: "int option"
  u_effectiveRemaining :: "int option"
  u_pendingEvaluations :: "int option"
  u_isUnlimited :: "bool option"
  u_plan :: "string option"

text \<open>The answer of \<open>fetch_extension_prompts\<close>, with its optional quota.\<close>

record quota =
  promptsUsedToday :: "int option"
  promptsPerDay :: "int option"
  promptsRemaining :: "int option"
  q_effectiveRemaining :: "int option"
  q_pendingEvaluations :: "int option"
  q_isUnlimited :: "bool option"
  q_plan :: "string option"

record PromptData =
  prompts :: "string list option"
  totalPrompts :: "int option"
  pd_quota :: "quota option"

record ProductConfig =
  samples_per_prompt :: "int option"

record products_store =
  selectedProductId :: "string option"
  productConfig :: "ProductConfig option"
  promptCount :: int
  dailyUsage :: DailyUsage

record regions_store =
  configuredRegions :: "string list"
  platformAuthStatus :: "(string \<times> bool) list"

record StartScanParams =
  productId :: string
  samplesPerPrompt :: int
  sp_platforms :: "string list"
  maxTests :: "jsnum option"

text \<open>The backend commands a store action invokes, in the order it invokes them.\<close>

datatype command =
    check_daily_usage
  | fetch_extension_prompts string
  | get_prompt_target_regions string
  | start_scan StartScanParams

text \<open>
  What the backend answers to each command: \<open>Inl\<close> is a rejected promise, with its error.
\<close>

record backend =
  checkDailyUsage :: "string + usage_response"
  fetchExtensionPrompts :: "string + PromptData option"
  getPromptTargetRegions :: "string + (string \<times> string list) list"
  startScan_command :: "string + unit"

text \<open>The stores of the process, and the commands invoked so far.\<close>

record app =
  scan :: scan_store
  ui :: ui_store
  products :: products_store
  regions :: regions_store
  platformIds :: "string list"
  invoked :: "command list"

definition truthy :: "bool option \<Rightarrow> bool" where
  "truthy b = (b = Some True)"

text \<open>\<open>a - b\<close> on fields that may be missing.\<close>

definition js_minus :: "int option \<Rightarrow> int option \<Rightarrow> jsnum" where
  "js_minus a b = (case (a, b) of (Some x, Some y) \<Rightarrow> Num (x - y) | _ \<Rightarrow> NaN)"

definition availableTests :: "products_store \<Rightarrow> jsnum" where
  "availableTests p = nullish (effectiveRemaining (dailyUsage p)) (remaining (dailyUsage p))"

definition loadDailyUsage :: "backend \<Rightarrow> app \<Rightarrow> app" where
  "loadDailyUsage be a =
     (let a1 = a\<lparr>invoked := invoked a @ [check_daily_usage]\<rparr>
      in case checkDailyUsage be of
           Inl err \<Rightarrow> a1
         | Inr usage \<Rightarrow>
             a1\<lparr>products := (products a1)\<lparr>dailyUsage :=
               \<lparr>current = or_default (u_current usage) 0,
                limit = or_default (u_limit usage) 5,
                remaining = Num (or_default (u_remaining usage) 0),
                effectiveRemaining =
                  Some (Num (nullish (u_effectiveRemaining usage) (nullish (u_remaining usage) 30))),
                pendingEvaluations = nullish (u_pendingEvaluations usage) 0,
                isUnlimited = (truthy (u_isUnlimited usage) \<or> u_limit usage = Some (- 1)),
                plan = or_default_str (u_plan usage) ''free''\<rparr>\<rparr>\<rparr>)"

definition loadProductPromptCount :: "backend \<Rightarrow> string \<Rightarrow> app \<Rightarrow> app" where
  "loadProductPromptCount be pid a =
     (let a1 = a\<lparr>invoked := invoked a @ [fetch_extension_prompts pid]\<rparr>
      in case fetchExtensionPrompts be of
           Inl err \<Rightarrow> a1\<lparr>products := (products a1)\<lparr>promptCount := 0\<rparr>\<rparr>
         | Inr promptData \<Rightarrow>
             let count =
                   or_default (Option.bind promptData totalPrompts)
                     (or_default
                        (map_option (\<lambda>l. int (length l)) (Option.bind promptData prompts)) 0);
                 a2 = a1\<lparr>products := (products a1)\<lparr>promptCount := count\<rparr>\<rparr>
             in (case Option.bind promptData pd_quota of
                  None \<Rightarrow> a2
                | Some q \<Rightarrow>
                    let baseRemaining =
                          (case promptsRemaining q of
                             Some r \<Rightarrow> Num r
                           | None \<Rightarrow> js_minus (promptsPerDay q) (promptsUsedToday q))
                    in a2\<lparr>products := (products a2)\<lparr>dailyUsage :=
                         \<lparr>current = or_default (promptsUsedToday q) 0,
                          limit = or_default (promptsPerDay q) 30,
                          remaining = baseRemaining,
                          effectiveRemaining =
                            Some (case q_effectiveRemaining q of
                                    Some e \<Rightarrow> Num e
                                  | None \<Rightarrow> baseRemaining),
                          pendingEvaluations = nullish (q_pendingEvaluations q) 0,
                          isUnlimited =
                            (truthy (q_isUnlimited q) \<or> promptsPerDay q = Some (- 1)),
                          plan = or_default_str (q_plan q) ''free''\<rparr>\<rparr>\<rparr>))"

section \<open>Strings\<close>

text \<open>
  \<open>toLowerCase\<close> on the Latin letters; no other character lowers to one of them that occurs
  in the words compared here.
\<close>

definition lower_char :: "char \<Rightarrow> char" where
  "lower_char c =
     (let n = (of_char c :: nat) in if 65 \<le> n \<and> n \<le> 90 then char_of (n + 32) else c)"

definition toLowerCase :: "string \<Rightarrow> string" where
  "toLowerCase s = map lower_char s"

text \<open>\<open>s.includes(sub)\<close>: \<open>sub\<close> starts at some position of \<open>s\<close>.\<close>

fun str_includes :: "string \<Rightarrow> string \<Rightarrow> bool" where
  "str_includes [] sub = (sub = [])"
| "str_includes (c # cs) sub = (prefix sub (c # cs) \<or> str_includes cs sub)"

text \<open>A number inside a template string.\<close>

function string_of_nat :: "nat \<Rightarrow> string" where
  "string_of_nat n =
     (if n < 10 then [char_of (48 + n)]
      else string_of_nat (n div 10) @ [char_of (48 + n mod 10)])"
  by pat_completeness auto
termination
  by (relation "measure id") auto

declare string_of_nat.simps [simp del]

definition string_of_int :: "int \<Rightarrow> string" where
  "string_of_int i = (if i < 0 then CHR ''-'' # string_of_nat (nat (- i)) else string_of_nat (nat i))"

section \<open>Starting a scan\<close>

text \<open>
  \<open>startScan\<close> is asynchronous. The model runs it from its first statement to its return with
  the answers of the backend given in advance, one per command; no other handler runs
  between its \<open>await\<close>s.
\<close>

definition isPlatformAuthForRegion :: "regions_store \<Rightarrow> string \<Rightarrow> string \<Rightarrow> bool" where
  "isPlatformAuthForRegion rs region platform =
     (map_of (platformAuthStatus rs) (region @ '':'' @ platform) = Some True)"

definition hasAnyAuth :: "regions_store \<Rightarrow> bool" where
  "hasAnyAuth rs = list_ex snd (platformAuthStatus rs)"

definition resetProgress :: "string list \<Rightarrow> scan_store \<Rightarrow> scan_store" where
  "resetProgress ids s =
     s\<lparr>progress := 0, phase := ''initializing'', countdownSeconds := None, lastResult := None,
       platforms := map (\<lambda>i. (i, \<lparr>status = ''pending'', total = Some 0, submitted = Some 0,
                                   collected = Some 0\<rparr>)) ids\<rparr>"

definition set_isStarting :: "bool \<Rightarrow> app \<Rightarrow> app" where
  "set_isStarting b a = a\<lparr>scan := (scan a)\<lparr>isStarting := b\<rparr>\<rparr>"

text \<open>\<open>neededRegions.add(r)\<close> on a \<open>Set\<close>, which keeps insertion order.\<close>

definition set_add :: "string list \<Rightarrow> string \<Rightarrow> string list" where
  "set_add xs x = (if x \<in> set xs then xs else xs @ [x])"

definition needed_regions :: "string list list \<Rightarrow> string list" where
  "needed_regions promptRegions =
     fold (\<lambda>rs acc. if rs = [] then set_add acc ''local''
                     else fold (\<lambda>r acc'. set_add acc' (toLowerCase r)) rs acc)
          promptRegions []"

text \<open>The \<open>catch\<close> block of \<open>startScan\<close>.\<close>

definition startScan_catch :: "string \<Rightarrow> app \<Rightarrow> app" where
  "startScan_catch err a =
     a\<lparr>ui := showView ''main'' (showMessage (''Failed to start scan: '' @ err) ''Error'' ''error'' (ui a)),
       scan := (scan a)\<lparr>isScanning := False, isStarting := False\<rparr>\<rparr>"

text \<open>The \<open>try\<close> block of \<open>startScan\<close>: the regions needed, the platforms, the command.\<close>

definition startScan_try :: "backend \<Rightarrow> string \<Rightarrow> jsnum \<Rightarrow> app \<Rightarrow> app" where
  "startScan_try be pid avail a =
     (let a1 = a\<lparr>invoked := invoked a @ [get_prompt_target_regions pid]\<rparr>
      in case getPromptTargetRegions be of
           Inl err \<Rightarrow> startScan_catch err a1
         | Inr promptRegions \<Rightarrow>
            (let neededRegions = needed_regions (map snd promptRegions);
                 missingAuth =
                   map (\<lambda>region. (region, platformIds a1))
                     (filter (\<lambda>region. \<not> list_ex (isPlatformAuthForRegion (regions a1) region)
                                                  (platformIds a1))
                        neededRegions)
             in if missingAuth \<noteq> [] then
                  set_isStarting False (a1\<lparr>ui := showAuthRequiredModal missingAuth (ui a1)\<rparr>)
                else
                  let authPlatforms =
                        filter (\<lambda>p. list_ex (\<lambda>r. isPlatformAuthForRegion (regions a1) r p)
                                      (configuredRegions (regions a1)))
                          (platformIds a1)
                  in if authPlatforms = [] then
                       set_isStarting False (a1\<lparr>ui := showAuthRequiredModal [] (ui a1)\<rparr>)
                     else
                       let samples =
                             or_default (Option.bind (productConfig (products a1)) samples_per_prompt) 1;
                           maxTestsToUse =
                             promptCount (products a1) * samples * int (length authPlatforms);
                           unlimited = isUnlimited (dailyUsage (products a1));
                           limitedPlatforms =
                             (case avail of
                                NaN \<Rightarrow> authPlatforms
                              | Num n \<Rightarrow>
                                  if \<not> unlimited \<and> n < maxTestsToUse then
                                    let testsPerPrompt = promptCount (products a1) * samples;
                                        platformsWeCanAfford =
                                          \<lfloor>js_div (of_int n) (of_int testsPerPrompt)\<rfloor>
                                    in if 0 < platformsWeCanAfford
                                          \<and> platformsWeCanAfford < int (length authPlatforms)
                                       then take (nat platformsWeCanAfford) authPlatforms
                                       else authPlatforms
                                  else authPlatforms);
                           a2 = a1\<lparr>scan := resetProgress (platformIds a1)
                                                ((scan a1)\<lparr>isScanning := True\<rparr>),
                                   ui := showView ''scanning'' (ui a1)\<rparr>;
                           params = \<lparr>productId = pid, samplesPerPrompt = samples,
                                     sp_platforms = limitedPlatforms,
                                     maxTests = (if unlimited then None else Some avail)\<rparr>;
                           a3 = a2\<lparr>invoked := invoked a2 @ [start_scan params]\<rparr>
                       in (case startScan_command be of
                             Inl err \<Rightarrow> startScan_catch err a3
                           | Inr u \<Rightarrow> set_isStarting False a3)))"

text \<open>\<open>availableTests <= 0\<close>: false on \<open>NaN\<close>.\<close>

definition not_positive :: "jsnum \<Rightarrow> bool" where
  "not_positive x = (case x of Num n \<Rightarrow> n \<le> 0 | NaN \<Rightarrow> False)"

text \<open>The quota check of \<open>startScan\<close>: true when the scan is refused for lack of quota.\<close>

definition quota_blocks :: "products_store \<Rightarrow> bool" where
  "quota_blocks p = (\<not> isUnlimited (dailyUsage p) \<and> not_positive (availableTests p))"

definition quota_message :: "DailyUsage \<Rightarrow> string" where
  "quota_message du =
     (if 0 < pendingEvaluations du then
        ''Please wait - '' @ string_of_int (pendingEvaluations du) @ '' tests are pending evaluation''
      else
        ''Daily limit reached ('' @ string_of_int (current du) @ ''/'' @ string_of_int (limit du)
          @ ''). Resets at midnight.'')"

definition startScan :: "backend \<Rightarrow> app \<Rightarrow> app" where
  "startScan be a =
     (if isStarting (scan a) \<or> isScanning (scan a) then a
      else case selectedProductId (products a) of
             None \<Rightarrow> a
           | Some pid \<Rightarrow>
               if pid = [] then a
               else if \<not> hasAnyAuth (regions a) then a\<lparr>ui := showAuthRequiredModal [] (ui a)\<rparr>
               else
                 let a1 = set_isStarting True a;
                     a2 = loadDailyUsage be a1;
                     a3 = loadProductPromptCount be pid a2;
                     avail = availableTests (products a3)
                 in if quota_blocks (products a3) then
                      set_isStarting False
                        (a3\<lparr>ui := showMessage (quota_message (dailyUsage (products a3)))
                                    ''Cannot Start Scan'' ''warning'' (ui a3)\<rparr>)
                    else if promptCount (products a3) = 0 then
                      set_isStarting False
                        (a3\<lparr>ui := showMessage
                            ''No prompts configured for this product. Add prompts in the dashboard.''
                            ''No Prompts'' ''warning'' (ui a3)\<rparr>)
                    else startScan_try be pid avail a3)"

section \<open>A scan error\<close>

text \<open>The payload of \<open>scan:error\<close>: a string, or an object whose \<open>message\<close> may be missing.\<close>

datatype error_payload = ErrorString string | ErrorObject "string option"

definition errorMsg_of :: "error_payload \<Rightarrow> string" where
  "errorMsg_of error =
     (case error of
        ErrorString s \<Rightarrow> s
      | ErrorObject m \<Rightarrow> or_default_str m ''[object Object]'')"

definition handleError :: "app \<Rightarrow> error_payload \<Rightarrow> app" where
  "handleError a error =
     (let a1 = a\<lparr>scan := (scan a)\<lparr>isScanning := False\<rparr>\<rparr>;
          errorMsg = errorMsg_of error;
          isCancelled = str_includes (toLowerCase errorMsg) ''cancel''
      in a1\<lparr>ui := showView ''main''
                  (showMessage errorMsg
                     (if isCancelled then ''Scan Cancelled'' else ''Scan Error'')
                     (if isCancelled then ''info'' else ''error'') (ui a1))\<rparr>)"

section \<open>The debounced quota refresh\<close>

text \<open>
  The timers of the runtime, in milliseconds: \<open>setTimeout\<close> hands out a fresh positive handle
  and queues the callback for \<open>now + delay\<close>; \<open>clearTimeout\<close> removes a queued callback. The
  only callback ever queued is the one of \<open>debouncedRefresh\<close>, so a queue entry is a handle and
  its due time. \<open>refreshes\<close> records the times at which \<open>loadDailyUsage\<close> was called.
\<close>

record realtime =
  now :: nat
  nextHandle :: nat
  pending :: "(nat \<times> nat) list"
  refreshTimer :: "nat option"
  refreshes :: "nat list"

definition setTimeout :: "nat \<Rightarrow> realtime \<Rightarrow> nat \<times> realtime" where
  "setTimeout delay r =
     (nextHandle r,
      r\<lparr>nextHandle := Suc (nextHandle r), pending := pending r @ [(nextHandle r, now r + delay)]\<rparr>)"

definition clearTimeout :: "nat \<Rightarrow> realtime \<Rightarrow> realtime" where
  "clearTimeout h r = r\<lparr>pending := filter (\<lambda>e. fst e \<noteq> h) (pending r)\<rparr>"

text \<open>The body of the callback: \<open>productsStore.loadDailyUsage(); refreshTimer = null\<close>.\<close>

definition refresh_callback :: "realtime \<Rightarrow> realtime" where
  "refresh_callback r = r\<lparr>refreshes := refreshes r @ [now r], refreshTimer := None\<rparr>"

definition debouncedRefresh :: "realtime \<Rightarrow> realtime" where
  "debouncedRefresh r =
     (let r1 = (case refreshTimer r of
                  None \<Rightarrow> r
                | Some h \<Rightarrow> if h = 0 then r else clearTimeout h r);
          (h, r2) = setTimeout 500 r1
      in r2\<lparr>refreshTimer := Some h\<rparr>)"

definition cleanupSubscriptions :: "realtime \<Rightarrow> realtime" where
  "cleanupSubscriptions r =
     (case refreshTimer r of
        None \<Rightarrow> r
      | Some h \<Rightarrow> if h = 0 then r else (clearTimeout h r)\<lparr>refreshTimer := None\<rparr>)"

text \<open>The event loop: the queued callback that is due first, at or before \<open>t\<close>.\<close>

fun next_due :: "nat \<Rightarrow> (nat \<times> nat) list \<Rightarrow> (nat \<times> nat) option" where
  "next_due t [] = None"
| "next_due t (e # rest) =
     (case next_due t rest of
        None \<Rightarrow> if snd e \<le> t then Some e else None
      | Some e' \<Rightarrow> if snd e \<le> snd e' then Some e else Some e')"

text \<open>Time passes until \<open>t\<close>: every callback due by then runs, at its due time.\<close>

function advance :: "nat \<Rightarrow> realtime \<Rightarrow> realtime" where
  "advance t r =
     (case next_due t (pending r) of
        None \<Rightarrow> r\<lparr>now := max (now r) t\<rparr>
      | Some e \<Rightarrow> advance t (refresh_callback (clearTimeout (fst e) (r\<lparr>now := max (now r) (snd e)\<rparr>))))"
  by pat_completeness auto
termination
proof (relation "measure (\<lambda>(t, r). length (pending r))")
  show "wf (measure (\<lambda>(t, r). length (pending r)))" by simp
next
  fix t :: nat and r :: realtime and e
  have mem: "next_due t q = Some e' \<Longrightarrow> e' \<in> set q" for q e'
    by (induction q arbitrary: e') (auto split: option.splits if_splits)
  assume "next_due t (pending r) = Some e"
  then have "e \<in> set (pending r)" by (rule mem)
  then have "length (filter (\<lambda>e'. fst e' \<noteq> fst e) (pending r)) < length (pending r)"
    by (intro length_filter_less[of e]) auto
  then show "((t, refresh_callback (clearTimeout (fst e) (r\<lparr>now := max (now r) (snd e)\<rparr>))), (t, r))
               \<in> measure (\<lambda>(t, r). length (pending r))"
    by (simp add: refresh_callback_def clearTimeout_def)
qed

declare advance.simps [simp del]

text \<open>A change notification arrives at time \<open>t\<close>.\<close>

definition signal :: "nat \<Rightarrow> realtime \<Rightarrow> realtime" where
  "signal t r = debouncedRefresh (advance t r)"

datatype event = Signal nat | Elapse nat | Cleanup

fun occur :: "event \<Rightarrow> realtime \<Rightarrow> realtime" where
  "occur (Signal t) r = signal t r"
| "occur (Elapse t) r = advance t r"
| "occur Cleanup r = cleanupSubscriptions r"

definition idle :: realtime where
  "idle = \<lparr>now = 0, nextHandle = 1, pending = [], refreshTimer = None, refreshes = []\<rparr>"

text \<open>A burst: each signal less than 500 ms after the one before.\<close>

fun burst :: "nat list \<Rightarrow> bool" where
  "burst (t # t' # ts) = (t \<le> t' \<and> t' < t + 500 \<and> burst (t' # ts))"
| "burst ts = True"

text \<open>
  The invariant of the debounce: the queue holds the one callback whose handle is in
  \<open>refreshTimer\<close>, or nothing. \<open>armed t\<close> is the state right after a signal at time \<open>t\<close>.
\<close>

definition single_slot :: "realtime \<Rightarrow> bool" where
  "single_slot r =
     (0 < nextHandle r \<and>
      (case refreshTimer r of
         None \<Rightarrow> pending r = []
       | Some h \<Rightarrow> 0 < h \<and> map fst (pending r) = [h]))"

definition armed :: "nat \<Rightarrow> realtime \<Rightarrow> bool" where
  "armed t r =
     (now r = t \<and> 0 < nextHandle r \<and>
      (case refreshTimer r of
         None \<Rightarrow> False
       | Some h \<Rightarrow> 0 < h \<and> pending r = [(h, t + 500)]))"

section \<open>The scanning view\<close>

text \<open>The countdown box is rendered when \<open>scanStore.countdownSeconds !== null\<close>.\<close>

definition countdown_shown :: "scan_store \<Rightarrow> bool" where
  "countdown_shown s = (countdownSeconds s \<noteq> None)"

section \<open>Initial stores and sample data\<close>

definition initial_scan :: scan_store where
  "initial_scan = \<lparr>isScanning = False, isStarting = False, phase = ''initializing'', progress = 0,
     countdownSeconds = None, platforms = [], lastResult = None\<rparr>"

definition initial_ui :: ui_store where
  "initial_ui = \<lparr>currentView = ''login'',
     message_modal = \<lparr>visible = False, title = [], message = [], mtype = ''info''\<rparr>,
     authRequired = False, authRequiredData = []\<rparr>"

definition initial_products :: products_store where
  "initial_products = \<lparr>selectedProductId = None, productConfig = None, promptCount = 0,
     dailyUsage = \<lparr>current = 0, limit = 30, remaining = Num 30, effectiveRemaining = Some (Num 30),
       pendingEvaluations = 0, isUnlimited = False, plan = ''free''\<rparr>\<rparr>"

text \<open>A response, and a quota, with every field missing.\<close>

definition empty_usage :: usage_response where
  "empty_usage = \<lparr>u_current = None, u_limit = None, u_remaining = None,
     u_effectiveRemaining = None, u_pendingEvaluations = None, u_isUnlimited = None, u_plan = None\<rparr>"


text \<open>
  A signed-in user on the main view with a product selected and one platform authenticated,
  and a backend on an unlimited plan whose counters of remaining tests are both zero.
\<close>

definition example_app :: app where
  "example_app = \<lparr>scan = initial_scan, ui = initial_ui\<lparr>currentView := ''main''\<rparr>,
     products = initial_products\<lparr>selectedProductId := Some ''p1''\<rparr>,
     regions = \<lparr>configuredRegions = [''local''], platformAuthStatus = [(''local:chatgpt'', True)]\<rparr>,
     platformIds = [''chatgpt'', ''claude''], invoked = []\<rparr>"

definition example_backend :: backend where
  "example_backend = \<lparr>
     checkDailyUsage = Inr (empty_usage\<lparr>u_current := Some 40, u_limit := Some (- 1),
        u_remaining := Some 0, u_effectiveRemaining := Some 0\<rparr>),
     fetchExtensionPrompts = Inr (Some \<lparr>prompts = None, totalPrompts = Some 5, pd_quota = None\<rparr>),
     getPromptTargetRegions = Inr [(''prompt-1'', [])],
     startScan_command = Inr ()\<rparr>"

text \<open>A store whose grid shows two platforms, one of them collecting.\<close>

definition two_platforms :: scan_store where
  "two_platforms = fresh_scan\<lparr>platforms :=
     [(''chatgpt'', \<lparr>status = ''submitting'', total = Some 5, submitted = Some 2, collected = Some 0\<rparr>),
      (''claude'', \<lparr>status = ''collecting'', total = Some 5, submitted = Some 5, collected = Some 1\<rparr>)]\<rparr>"

section \<open>Facts about binary64 rounding\<close>

text \<open>
  The rounding is exact on the integers met below, never turns a non-negative number
  negative, and is monotone on the non-negative numbers.
\<close>

lemma binary64_values:
  "binary64 0 = 0" "binary64 1 = 1" "binary64 2 = 2" "binary64 50 = 50" "binary64 100 = 100"
  "binary64 200 = 200"
  by code_simp+

lemma Math_round_values:
  "Math_round 0 = 0" "Math_round 50 = 50" "Math_round 100 = 100" "Math_round 200 = 200"
  by code_simp+

text \<open>
  Rounding matters: with 2 of 12 submitted and 1 of 12 collected the exact value is 12.5,
  the computed one is just below, and \<open>Math.round\<close> gives 12.
\<close>

lemma round_2_1_12:
  "Math_round (js_add (js_mul (js_div 2 12) 50) (js_mul (js_div 1 12) 50)) = 12"
  by code_simp

lemma round_1_0_100:
  "Math_round (js_add (js_mul (js_div 1 100) 50) (js_mul (js_div 0 100) 50)) = 1"
  by code_simp

lemma two_powi_pos: "0 < (2::rat) powi e"
  by simp

lemma two_powi_mono: "m \<le> n \<Longrightarrow> (2::rat) powi m \<le> 2 powi n"
  by (rule power_int_increasing) simp_all


lemma two_powi_Suc: "(2::rat) powi (e + 1) = 2 * 2 powi e"
  by (simp add: power_int_add)

lemma ilog2_bounds:
  assumes "0 < x"
  shows "2 powi (ilog2 x) \<le> x \<and> x < 2 powi (ilog2 x + 1)"
proof -
  obtain a b where q: "quotient_of x = (a, b)" by (cases "quotient_of x")
  have b: "0 < b" using q by (rule quotient_of_denom_pos)
  have x: "x = of_int a / of_int b" using q by (rule quotient_of_div)
  have a: "0 < a" using assms b x by (simp add: zero_less_divide_iff)
  define la lb where "la = bitlen a" and "lb = bitlen b"
  have la: "1 \<le> la" and lb: "1 \<le> lb"
    using a b bitlen_eq_zero_iff[of a] bitlen_eq_zero_iff[of b] bitlen_nonneg[of a] bitlen_nonneg[of b]
    by (auto simp: la_def lb_def)
  have ba: "2 ^ nat (la - 1) \<le> a" "a < 2 ^ nat la"
    and bb: "2 ^ nat (lb - 1) \<le> b" "b < 2 ^ nat lb"
    using bitlen_bounds[OF a] bitlen_bounds[OF b] by (simp_all add: la_def lb_def)
  have ra: "(2::rat) powi (la - 1) \<le> of_int a" "of_int a < (2::rat) powi la"
  proof -
    have "(of_int (2 ^ nat (la - 1)) :: rat) \<le> of_int a" using ba(1) by (simp only: of_int_le_iff)
    moreover have "(2::rat) powi (la - 1) = 2 ^ nat (la - 1)"
      using la by (simp add: power_int_def)
    ultimately show "(2::rat) powi (la - 1) \<le> of_int a" by simp
    have "(of_int a :: rat) < of_int (2 ^ nat la)" using ba(2) by (simp only: of_int_less_iff)
    moreover have "(2::rat) powi la = 2 ^ nat la"
      using la by (simp add: power_int_def)
    ultimately show "of_int a < (2::rat) powi la" by simp
  qed
  have rb: "(2::rat) powi (lb - 1) \<le> of_int b" "of_int b < (2::rat) powi lb"
  proof -
    have "(of_int (2 ^ nat (lb - 1)) :: rat) \<le> of_int b" using bb(1) by (simp only: of_int_le_iff)
    moreover have "(2::rat) powi (lb - 1) = 2 ^ nat (lb - 1)"
      using lb by (simp add: power_int_def)
    ultimately show "(2::rat) powi (lb - 1) \<le> of_int b" by simp
    have "(of_int b :: rat) < of_int (2 ^ nat lb)" using bb(2) by (simp only: of_int_less_iff)
    moreover have "(2::rat) powi lb = 2 ^ nat lb"
      using lb by (simp add: power_int_def)
    ultimately show "of_int b < (2::rat) powi lb" by simp
  qed
  define d where "d = la - lb"
  have bpos: "(0::rat) < of_int b" using b by simp
  have upper: "x < 2 powi (d + 1)"
  proof -
    have "x * of_int b = of_int a" using x bpos by simp
    also have "\<dots> < 2 powi la" by (rule ra(2))
    also have "\<dots> = 2 powi (d + 1) * 2 powi (lb - 1)"
      by (simp add: d_def flip: power_int_add)
    also have "\<dots> \<le> 2 powi (d + 1) * of_int b"
      by (intro mult_left_mono rb(1) less_imp_le two_powi_pos)
    finally show ?thesis using bpos by (simp add: mult_less_cancel_right)
  qed
  have lower: "2 powi (d - 1) < x"
  proof -
    have "(2::rat) powi (d - 1) * of_int b < 2 powi (d - 1) * 2 powi lb"
      by (intro mult_strict_left_mono rb(2) two_powi_pos)
    also have "\<dots> = 2 powi (la - 1)"
      by (simp add: d_def flip: power_int_add)
    also have "\<dots> \<le> of_int a" by (rule ra(1))
    also have "\<dots> = x * of_int b" using x bpos by simp
    finally show ?thesis using bpos by (simp add: mult_less_cancel_right)
  qed
  have il: "ilog2 x = (if 2 powi d \<le> x then d else d - 1)"
    by (simp add: ilog2_def q d_def la_def lb_def Let_def)
  show ?thesis
  proof (cases "2 powi d \<le> x")
    case True
    then show ?thesis using il upper by simp
  next
    case False
    then show ?thesis using il lower by simp
  qed
qed



lemma round_half_even_of_int: "round_half_even (of_int n) = n"
  by (simp add: round_half_even_def Let_def)


lemma binary64_pos_eq:
  "0 < x \<Longrightarrow> binary64 x = of_int (round_half_even (x / 2 powi (ilog2 x - 52))) * 2 powi (ilog2 x - 52)"
  by (simp add: binary64_def Let_def)




lemma binary64_uminus: "binary64 (- x) = - binary64 x"
  by (simp add: binary64_def Let_def)

lemma binary64_exact:
  assumes "0 < x" "x / 2 powi (ilog2 x - 52) = of_int m"
  shows "binary64 x = x"
proof -
  have u: "(2::rat) powi (ilog2 x - 52) \<noteq> 0" using two_powi_pos[of "ilog2 x - 52"] by simp
  have "binary64 x = of_int m * 2 powi (ilog2 x - 52)"
    using assms by (simp add: binary64_pos_eq round_half_even_of_int)
  also have "\<dots> = x / 2 powi (ilog2 x - 52) * 2 powi (ilog2 x - 52)"
    by (simp only: assms(2))
  also have "\<dots> = x" using u by simp
  finally show ?thesis .
qed

lemma binary64_of_pos_int:
  assumes "0 < n" "n \<le> 2 ^ 53"
  shows "binary64 (of_int n) = of_int n"
proof -
  let ?x = "of_int n :: rat"
  define e where "e = ilog2 ?x"
  have x: "0 < ?x" "1 \<le> ?x" "?x \<le> 2 ^ 53"
  proof -
    show "0 < ?x" "1 \<le> ?x" using assms(1) by simp_all
    have "?x \<le> of_int (2 ^ 53)" using assms(2) by (simp only: of_int_le_iff)
    then show "?x \<le> 2 ^ 53" by simp
  qed
  have b: "2 powi e \<le> ?x" "?x < 2 powi (e + 1)"
    using ilog2_bounds[OF x(1)] by (simp_all add: e_def)
  have e0: "0 \<le> e"
  proof (rule ccontr)
    assume "\<not> 0 \<le> e"
    then have "e + 1 \<le> 0" by simp
    then have "(2::rat) powi (e + 1) \<le> 2 powi 0" by (rule two_powi_mono)
    then show False using b(2) x(2) by simp
  qed
  have e53: "e \<le> 53"
  proof (rule ccontr)
    assume "\<not> e \<le> 53"
    then have "54 \<le> e" by simp
    then have "(2::rat) powi 54 \<le> 2 powi e" by (rule two_powi_mono)
    then show False using b(1) x(3) by simp
  qed
  show ?thesis
  proof (cases "e \<le> 52")
    case True
    have "?x / 2 powi (e - 52) = ?x * 2 powi (52 - e)"
      by (simp add: power_int_diff)
    also have "\<dots> = ?x * 2 ^ nat (52 - e)"
      using True by (simp add: power_int_def)
    also have "\<dots> = of_int (n * 2 ^ nat (52 - e))" by simp
    finally have "?x / 2 powi (ilog2 ?x - 52) = of_int (n * 2 ^ nat (52 - e))"
      by (simp only: e_def)
    then show ?thesis using x(1) by (rule binary64_exact[rotated])
  next
    case False
    then have e: "e = 53" using e53 by simp
    have "(2::rat) ^ 53 \<le> ?x" using b(1) by (simp add: e)
    then have n: "?x = 2 ^ 53" using x(3) by simp
    have "?x / 2 powi (e - 52) = of_int (2 ^ 52)" by (simp add: e n)
    then have "?x / 2 powi (ilog2 ?x - 52) = of_int (2 ^ 52)"
      by (simp only: e_def)
    then show ?thesis using x(1) by (rule binary64_exact[rotated])
  qed
qed

lemma binary64_of_int:
  assumes "\<bar>n\<bar> \<le> 2 ^ 53"
  shows "binary64 (of_int n) = of_int n"
proof -
  consider "n = 0" | "0 < n" | "n < 0" by linarith
  then show ?thesis
  proof cases
    case 1
    then show ?thesis by (simp add: binary64_def)
  next
    case 2
    then show ?thesis using assms by (intro binary64_of_pos_int) simp_all
  next
    case 3
    then have "binary64 (of_int (- n)) = of_int (- n)"
      using assms by (intro binary64_of_pos_int) simp_all
    then show ?thesis using binary64_uminus[of "of_int n"] by simp
  qed
qed

lemma abs_sum_nonneg: "0 \<le> (\<Sum>x\<leftarrow>xs. \<bar>f x :: int\<bar>)"
  by (induction xs) simp_all

lemma js_num_exact: "\<bar>n\<bar> \<le> 2 ^ 53 \<Longrightarrow> js_num n = of_int n"
  by (simp add: js_num_def binary64_of_int)

lemma js_add_exact:
  assumes "\<bar>a\<bar> + \<bar>v\<bar> \<le> 2 ^ 53"
  shows "js_add (of_int a) (js_num v) = of_int (a + v)"
proof -
  have v: "\<bar>v\<bar> \<le> 2 ^ 53" and av: "\<bar>a + v\<bar> \<le> 2 ^ 53" using assms by linarith+
  have "js_add (of_int a) (js_num v) = binary64 (of_int a + of_int v)"
    by (simp add: js_add_def js_num_exact[OF v])
  also have "of_int a + of_int v = (of_int (a + v) :: rat)" by simp
  also have "binary64 (of_int (a + v)) = of_int (a + v)" by (rule binary64_of_int[OF av])
  finally show ?thesis .
qed






section \<open>The progress reconciler\<close>

text \<open>In the safe range the loop computes the exact sums.\<close>

lemma sum_counters_exact:
  assumes "\<bar>a\<bar> + (\<Sum>st\<leftarrow>sts. \<bar>or_default (submitted st) 0\<bar>) \<le> 2 ^ 53"
    and "\<bar>b\<bar> + (\<Sum>st\<leftarrow>sts. \<bar>or_default (collected st) 0\<bar>) \<le> 2 ^ 53"
    and "\<bar>c\<bar> + (\<Sum>st\<leftarrow>sts. \<bar>or_default (total st) 0\<bar>) \<le> 2 ^ 53"
  shows "sum_counters sts (of_int a, of_int b, of_int c) =
     (of_int (a + (\<Sum>st\<leftarrow>sts. or_default (submitted st) 0)),
      of_int (b + (\<Sum>st\<leftarrow>sts. or_default (collected st) 0)),
      of_int (c + (\<Sum>st\<leftarrow>sts. or_default (total st) 0)))"
  using assms
proof (induction sts arbitrary: a b c)
  case Nil
  then show ?case by simp
next
  case (Cons st sts)
  let ?s = "or_default (submitted st) 0" and ?c = "or_default (collected st) 0"
    and ?t = "or_default (total st) 0"
  have nn: "0 \<le> (\<Sum>st\<leftarrow>sts. \<bar>or_default (submitted st) 0\<bar>)"
    "0 \<le> (\<Sum>st\<leftarrow>sts. \<bar>or_default (collected st) 0\<bar>)"
    "0 \<le> (\<Sum>st\<leftarrow>sts. \<bar>or_default (total st) 0\<bar>)"
    by (rule abs_sum_nonneg)+
  have e: "js_add (of_int a) (js_num ?s) = of_int (a + ?s)"
    "js_add (of_int b) (js_num ?c) = of_int (b + ?c)"
    "js_add (of_int c) (js_num ?t) = of_int (c + ?t)"
    using Cons.prems nn by (intro js_add_exact; simp)+
  have "sum_counters sts (of_int (a + ?s), of_int (b + ?c), of_int (c + ?t)) =
     (of_int (a + ?s + (\<Sum>st\<leftarrow>sts. or_default (submitted st) 0)),
      of_int (b + ?c + (\<Sum>st\<leftarrow>sts. or_default (collected st) 0)),
      of_int (c + ?t + (\<Sum>st\<leftarrow>sts. or_default (total st) 0)))"
    using Cons.prems by (intro Cons.IH) simp_all
  then show ?case by (simp add: e add.assoc)
qed

lemma sum_counters_sums:
  assumes "safe_counters ps"
  shows "sum_counters (map snd ps) (0, 0, 0) =
     (of_int (sum_submitted ps), of_int (sum_collected ps), of_int (sum_total ps))"
  using assms sum_counters_exact[of 0 "map snd ps" 0 0]
  by (simp add: safe_counters_def sum_submitted_def sum_collected_def sum_total_def)

lemma updateProgress_progress:
  assumes "p_platforms pd = Some ps" "safe_counters ps"
  shows "progress (updateProgress s (Some pd)) =
     (if 0 < sum_total ps then
        Math_round (js_add (js_mul (js_div (of_int (sum_submitted ps)) (of_int (sum_total ps))) 50)
                           (js_mul (js_div (of_int (sum_collected ps)) (of_int (sum_total ps))) 50))
      else progress s)"
  using assms
  by (simp add: updateProgress_def sum_counters_sums Let_def
           split: option.splits countdown_field.splits)

lemma one_platform_platforms:
  "p_platforms (one_platform t sub col) = Some [(''chatgpt'',
     \<lparr>status = ''collecting'', total = Some t, submitted = Some sub, collected = Some col\<rparr>)]"
  by (simp add: one_platform_def)

lemma one_platform_sums:
  "sum_total [(k, \<lparr>status = st, total = Some t, submitted = Some sub, collected = Some col\<rparr>)] = t"
  "sum_submitted [(k, \<lparr>status = st, total = Some t, submitted = Some sub, collected = Some col\<rparr>)] = sub"
  "sum_collected [(k, \<lparr>status = st, total = Some t, submitted = Some sub, collected = Some col\<rparr>)] = col"
  by (simp_all add: sum_total_def sum_submitted_def sum_collected_def or_default_def)

lemma one_platform_safe:
  "\<bar>t\<bar> \<le> 2 ^ 53 \<Longrightarrow> \<bar>sub\<bar> \<le> 2 ^ 53 \<Longrightarrow> \<bar>col\<bar> \<le> 2 ^ 53 \<Longrightarrow>
   safe_counters [(k, \<lparr>status = st, total = Some t, submitted = Some sub, collected = Some col\<rparr>)]"
  by (simp add: safe_counters_def or_default_def)

lemma one_platform_progress:
  assumes "\<bar>t\<bar> \<le> 2 ^ 53" "\<bar>sub\<bar> \<le> 2 ^ 53" "\<bar>col\<bar> \<le> 2 ^ 53"
  shows "progress (updateProgress s (Some (one_platform t sub col))) =
     (if 0 < t then
        Math_round (js_add (js_mul (js_div (of_int sub) (of_int t)) 50)
                           (js_mul (js_div (of_int col) (of_int t)) 50))
      else progress s)"
  by (simp add: updateProgress_progress[OF one_platform_platforms one_platform_safe[OF assms]]
        one_platform_sums)

text \<open>
  Claim C1. Whenever the payload carries a platforms map whose counters are in the safe
  range and whose totals add up to more than zero, \<open>updateProgress\<close> sets the overall
  progress to \<open>round((\<Sum>submitted / \<Sum>total) * 50 + (\<Sum>collected / \<Sum>total) * 50)\<close>, the
  expression being evaluated in the arithmetic of the code. One platform with total 10,
  submitted 10 and collected 0 gives 50; with collected 10 as well it gives 100; with
  total 100, submitted 1 and collected 0 the value 0.5 is rounded up to 1.
\<close>

theorem updateProgress_overall_percent:
  "(\<forall>s pd ps. p_platforms pd = Some ps \<longrightarrow> safe_counters ps \<longrightarrow> 0 < sum_total ps \<longrightarrow>
       progress (updateProgress s (Some pd)) =
         Math_round (js_add (js_mul (js_div (of_int (sum_submitted ps)) (of_int (sum_total ps))) 50)
                            (js_mul (js_div (of_int (sum_collected ps)) (of_int (sum_total ps))) 50)))
   \<and> progress (updateProgress s0 (Some (one_platform 10 10 0))) = 50
   \<and> progress (updateProgress s0 (Some (one_platform 10 10 10))) = 100
   \<and> progress (updateProgress s0 (Some (one_platform 100 1 0))) = 1"
proof (intro conjI allI impI)
  fix s :: scan_store and pd :: ScanProgress and ps :: platform_map
  assume "p_platforms pd = Some ps" "safe_counters ps" "0 < sum_total ps"
  then show "progress (updateProgress s (Some pd)) =
         Math_round (js_add (js_mul (js_div (of_int (sum_submitted ps)) (of_int (sum_total ps))) 50)
                            (js_mul (js_div (of_int (sum_collected ps)) (of_int (sum_total ps))) 50))"
    by (simp add: updateProgress_progress)
next
  show "progress (updateProgress s0 (Some (one_platform 10 10 0))) = 50"
    by (simp add: one_platform_progress js_div_def js_mul_def js_add_def binary64_values
          Math_round_values)
next
  show "progress (updateProgress s0 (Some (one_platform 10 10 10))) = 100"
    by (simp add: one_platform_progress js_div_def js_mul_def js_add_def binary64_values
          Math_round_values)
next
  show "progress (updateProgress s0 (Some (one_platform 100 1 0))) = 1"
    by (simp add: one_platform_progress round_1_0_100)
qed

theorem updateProgress_overall_percent_witness:
  "p_platforms (one_platform 12 2 1) = Some [(''chatgpt'',
         \<lparr>status = ''collecting'', total = Some 12, submitted = Some 2, collected = Some 1\<rparr>)]
   \<and> safe_counters [(''chatgpt'',
         \<lparr>status = ''collecting'', total = Some 12, submitted = Some 2, collected = Some 1\<rparr>)]
   \<and> 0 < sum_total [(''chatgpt'',
         \<lparr>status = ''collecting'', total = Some 12, submitted = Some 2, collected = Some 1\<rparr>)]
   \<and> progress (updateProgress fresh_scan (Some (one_platform 12 2 1))) = 12"
proof -
  let ?ps = "[(''chatgpt'',
         \<lparr>status = ''collecting'', total = Some 12, submitted = Some 2, collected = Some 1\<rparr>)]"
  have h1: "p_platforms (one_platform 12 2 1) = Some ?ps" by (rule one_platform_platforms)
  have h2: "safe_counters ?ps" by (simp add: one_platform_safe)
  have h3: "0 < sum_total ?ps" by (simp add: one_platform_sums)
  have "progress (updateProgress fresh_scan (Some (one_platform 12 2 1))) =
         Math_round (js_add (js_mul (js_div (of_int (sum_submitted ?ps)) (of_int (sum_total ?ps))) 50)
                            (js_mul (js_div (of_int (sum_collected ?ps)) (of_int (sum_total ?ps))) 50))"
    using updateProgress_overall_percent[THEN conjunct1, rule_format, OF h1 h2 h3] .
  also have "\<dots> = 12"
    by (simp add: one_platform_sums round_2_1_12)
  finally show ?thesis using h1 h2 h3 by simp
qed

text \<open>
  Claim C2 says that a payload whose platforms all have total 0 leaves the overall percent
  at 0. The store only assigns \<open>progress\<close> under \<open>totalTasks > 0\<close> and has no other branch, so
  the percent of the payload before stays: after a payload that brought it to 50, a payload
  of zero totals leaves it at 50, where the older handler renders 0. Nothing is divided by
  zero, and a store that was just reset does show 0.
\<close>

theorem updateProgress_zero_total_keeps_percent:
  "progress (updateProgress (updateProgress fresh_scan (Some (one_platform 10 10 0)))
                            (Some (one_platform 0 0 0))) = 50
   \<and> updateScanProgress_percent (one_platform 0 0 0) = 0
   \<and> progress (updateProgress fresh_scan (Some (one_platform 0 0 0))) = 0"
proof -
  have "updateScanProgress_percent (one_platform 0 0 0) = 0"
    by (simp add: updateScanProgress_percent_def one_platform_platforms or_default_def
          js_num_def js_add_def binary64_values)
  moreover have "progress (updateProgress fresh_scan (Some (one_platform 0 0 0))) = 0"
    by (simp add: one_platform_progress fresh_scan_def)
  ultimately show ?thesis
    by (simp add: one_platform_progress js_div_def js_mul_def js_add_def binary64_values
          Math_round_values)
qed

text \<open>
  Claim C5. A payload with a platforms map replaces the stored map by it: the stored map is
  the payload's, and a platform of the earlier state that the payload does not name is no
  longer there.
\<close>

theorem updateProgress_replaces_platforms:
  "platforms (updateProgress s (Some (pd\<lparr>p_platforms := Some ps\<rparr>))) = ps
   \<and> (\<forall>k. k \<in> fst ` set (platforms s) \<longrightarrow> k \<notin> fst ` set ps \<longrightarrow>
          map_of (platforms (updateProgress s (Some (pd\<lparr>p_platforms := Some ps\<rparr>)))) k = None)"
proof -
  have "platforms (updateProgress s (Some (pd\<lparr>p_platforms := Some ps\<rparr>))) = ps"
    by (simp add: updateProgress_def Let_def split: option.splits countdown_field.splits prod.splits)
  then show ?thesis by (simp add: map_of_eq_None_iff)
qed

theorem updateProgress_replaces_platforms_witness:
  "''claude'' \<in> fst ` set (platforms two_platforms)
   \<and> ''claude'' \<notin> fst ` set [(''chatgpt'',
         \<lparr>status = ''collecting'', total = Some 5, submitted = Some 3, collected = Some 0\<rparr>)]
   \<and> map_of (platforms two_platforms) ''claude'' \<noteq> None
   \<and> map_of (platforms (updateProgress two_platforms (Some (one_platform 5 3 0)))) ''claude'' = None"
proof -
  let ?ps = "[(''chatgpt'',
         \<lparr>status = ''collecting'', total = Some 5, submitted = Some 3, collected = Some 0\<rparr>)]"
  have e: "(one_platform 5 3 0)\<lparr>p_platforms := Some ?ps\<rparr> = one_platform 5 3 0"
    by (simp add: one_platform_def)
  have h1: "''claude'' \<in> fst ` set (platforms two_platforms)"
    by (simp add: two_platforms_def)
  have h2: "''claude'' \<notin> fst ` set ?ps" by simp
  have "map_of (platforms (updateProgress two_platforms
            (Some ((one_platform 5 3 0)\<lparr>p_platforms := Some ?ps\<rparr>)))) ''claude'' = None"
    using updateProgress_replaces_platforms[where s = two_platforms and pd = "one_platform 5 3 0"
            and ps = ?ps, THEN conjunct2, rule_format, OF h1 h2] .
  then show ?thesis using h1 h2 e by (simp add: two_platforms_def)
qed

text \<open>
  What the store does with the three shapes of \<open>countdownSeconds\<close>: a number, zero included,
  is stored and the countdown is shown; \<open>null\<close> clears the stored countdown and hides it; a
  payload without the field leaves the stored countdown as it was.
\<close>

lemma updateProgress_countdown:
  "countdownSeconds (updateProgress s (Some (pd\<lparr>p_countdownSeconds := Seconds n\<rparr>))) = Some n
   \<and> countdownSeconds (updateProgress s (Some (pd\<lparr>p_countdownSeconds := Seconds 0\<rparr>))) = Some 0
   \<and> countdown_shown (updateProgress s (Some (pd\<lparr>p_countdownSeconds := Seconds 0\<rparr>)))
   \<and> countdownSeconds (updateProgress s (Some (pd\<lparr>p_countdownSeconds := Null\<rparr>))) = None
   \<and> \<not> countdown_shown (updateProgress s (Some (pd\<lparr>p_countdownSeconds := Null\<rparr>)))
   \<and> countdownSeconds (updateProgress s (Some (pd\<lparr>p_countdownSeconds := Missing\<rparr>))) =
        countdownSeconds s"
  by (simp add: updateProgress_def Let_def countdown_shown_def
        split: option.splits countdown_field.splits prod.splits)

text \<open>
  Claim C6 says that a countdown of 0 is stored and shown, and that a payload without the
  field \<open>countdownSeconds\<close> clears the countdown, as \<open>null\<close> does. The first part holds, and
  \<open>null\<close> clears. But the store assigns only when the field is not \<open>undefined\<close> and has no
  other branch: a countdown of 30 is still 30, and still shown, after a payload that omits
  the field, where the older handler of the same event hides the box.
\<close>

theorem updateProgress_missing_countdown_stays:
  "countdownSeconds (updateProgress (fresh_scan\<lparr>countdownSeconds := Some 30\<rparr>)
       (Some (one_platform 10 5 0))) = Some 30
   \<and> countdown_shown (updateProgress (fresh_scan\<lparr>countdownSeconds := Some 30\<rparr>)
       (Some (one_platform 10 5 0)))
   \<and> p_countdownSeconds (one_platform 10 5 0) = Missing
   \<and> \<not> updateScanProgress_countdown_shown (one_platform 10 5 0)
   \<and> countdownSeconds (updateProgress (fresh_scan\<lparr>countdownSeconds := Some 30\<rparr>)
       (Some ((one_platform 10 5 0)\<lparr>p_countdownSeconds := Seconds 0\<rparr>))) = Some 0
   \<and> countdownSeconds (updateProgress (fresh_scan\<lparr>countdownSeconds := Some 30\<rparr>)
       (Some ((one_platform 10 5 0)\<lparr>p_countdownSeconds := Null\<rparr>))) = None"
  by (simp add: updateProgress_def one_platform_def Let_def countdown_shown_def
        updateScanProgress_countdown_shown_def split: prod.splits)




section \<open>The quota reconciler\<close>

lemma loadDailyUsage_snapshot:
  "dailyUsage (products (loadDailyUsage (be\<lparr>checkDailyUsage := Inr usage\<rparr>) a)) =
     \<lparr>current = or_default (u_current usage) 0,
      limit = or_default (u_limit usage) 5,
      remaining = Num (or_default (u_remaining usage) 0),
      effectiveRemaining =
        Some (Num (nullish (u_effectiveRemaining usage) (nullish (u_remaining usage) 30))),
      pendingEvaluations = nullish (u_pendingEvaluations usage) 0,
      isUnlimited = (truthy (u_isUnlimited usage) \<or> u_limit usage = Some (- 1)),
      plan = or_default_str (u_plan usage) ''free''\<rparr>"
  by (simp add: loadDailyUsage_def Let_def)

lemma loadProductPromptCount_snapshot:
  "dailyUsage (products (loadProductPromptCount
      (be\<lparr>fetchExtensionPrompts := Inr (Some (pd\<lparr>pd_quota := Some q\<rparr>))\<rparr>) pid a)) =
     \<lparr>current = or_default (promptsUsedToday q) 0,
      limit = or_default (promptsPerDay q) 30,
      remaining = (case promptsRemaining q of Some r \<Rightarrow> Num r
                   | None \<Rightarrow> js_minus (promptsPerDay q) (promptsUsedToday q)),
      effectiveRemaining =
        Some (case q_effectiveRemaining q of Some e \<Rightarrow> Num e
              | None \<Rightarrow> (case promptsRemaining q of Some r \<Rightarrow> Num r
                   | None \<Rightarrow> js_minus (promptsPerDay q) (promptsUsedToday q))),
      pendingEvaluations = nullish (q_pendingEvaluations q) 0,
      isUnlimited = (truthy (q_isUnlimited q) \<or> promptsPerDay q = Some (- 1)),
      plan = or_default_str (q_plan q) ''free''\<rparr>"
  by (simp add: loadProductPromptCount_def Let_def)

lemma example_app_fields:
  "isStarting (scan example_app) = False" "isScanning (scan example_app) = False"
  "selectedProductId (products example_app) = Some ''p1''" "hasAnyAuth (regions example_app)"
  "invoked example_app = []"
  by (simp_all add: example_app_def initial_scan_def initial_products_def hasAnyAuth_def)

lemma example_loaded:
  "dailyUsage (products (loadProductPromptCount example_backend ''p1''
       (loadDailyUsage example_backend (set_isStarting True example_app)))) =
     \<lparr>current = 40, limit = - 1, remaining = Num 0, effectiveRemaining = Some (Num 0),
      pendingEvaluations = 0, isUnlimited = True, plan = ''free''\<rparr>"
   "promptCount (products (loadProductPromptCount example_backend ''p1''
       (loadDailyUsage example_backend (set_isStarting True example_app)))) = 5"
  by (simp_all add: loadProductPromptCount_def loadDailyUsage_def example_backend_def Let_def
        empty_usage_def or_default_def nullish_def truthy_def or_default_str_def)

text \<open>
  On the sample data the whole of \<open>startScan\<close> runs: the quota is refreshed twice, the regions
  are fetched, and the scan is started on the one authenticated platform, without a cap.
\<close>

lemma example_started:
  "invoked (startScan example_backend example_app) =
     [check_daily_usage, fetch_extension_prompts ''p1'', get_prompt_target_regions ''p1'',
      start_scan \<lparr>productId = ''p1'', samplesPerPrompt = 1, sp_platforms = [''chatgpt''],
                  maxTests = None\<rparr>]"
  by (simp add: startScan_def startScan_try_def Let_def example_loaded
        quota_blocks_def
        example_app_def initial_scan_def initial_products_def initial_ui_def
        hasAnyAuth_def set_isStarting_def loadDailyUsage_def loadProductPromptCount_def
        example_backend_def empty_usage_def or_default_def nullish_def truthy_def or_default_str_def
        needed_regions_def set_add_def isPlatformAuthForRegion_def availableTests_def)



text \<open>
  Claim C4. Both loaders compute \<open>isUnlimited\<close> as the explicit flag or a limit of -1. The
  quota check of \<open>startScan\<close> looks at \<open>isUnlimited\<close> first: when it is true the check does not
  refuse, whatever the counters of remaining tests, and a call that passed the earlier
  guards and found prompts goes on to the region checks and the start of the scan.
\<close>

theorem unlimited_bypasses_quota_gate:
  "isUnlimited (dailyUsage (products (loadDailyUsage (be\<lparr>checkDailyUsage := Inr usage\<rparr>) a)))
     = (u_isUnlimited usage = Some True \<or> u_limit usage = Some (- 1))
   \<and> isUnlimited (dailyUsage (products (loadProductPromptCount
          (be\<lparr>fetchExtensionPrompts := Inr (Some (pd\<lparr>pd_quota := Some q\<rparr>))\<rparr>) pid a)))
     = (q_isUnlimited q = Some True \<or> promptsPerDay q = Some (- 1))
   \<and> (isUnlimited (dailyUsage p) \<longrightarrow> \<not> quota_blocks p)
   \<and> (\<not> isStarting (scan a) \<and> \<not> isScanning (scan a) \<and> selectedProductId (products a) = Some pid
        \<and> pid \<noteq> [] \<and> hasAnyAuth (regions a)
        \<and> isUnlimited (dailyUsage (products
              (loadProductPromptCount be pid (loadDailyUsage be (set_isStarting True a)))))
        \<and> promptCount (products
              (loadProductPromptCount be pid (loadDailyUsage be (set_isStarting True a)))) \<noteq> 0
      \<longrightarrow> startScan be a =
            startScan_try be pid
              (availableTests (products
                 (loadProductPromptCount be pid (loadDailyUsage be (set_isStarting True a)))))
              (loadProductPromptCount be pid (loadDailyUsage be (set_isStarting True a))))"
proof (intro conjI impI)
  show "isUnlimited (dailyUsage (products (loadDailyUsage (be\<lparr>checkDailyUsage := Inr usage\<rparr>) a)))
     = (u_isUnlimited usage = Some True \<or> u_limit usage = Some (- 1))"
    by (simp add: loadDailyUsage_snapshot truthy_def)
  show "isUnlimited (dailyUsage (products (loadProductPromptCount
          (be\<lparr>fetchExtensionPrompts := Inr (Some (pd\<lparr>pd_quota := Some q\<rparr>))\<rparr>) pid a)))
     = (q_isUnlimited q = Some True \<or> promptsPerDay q = Some (- 1))"
    by (simp add: loadProductPromptCount_snapshot truthy_def)
  show "\<not> quota_blocks p" if "isUnlimited (dailyUsage p)"
    using that by (simp add: quota_blocks_def)
next
  let ?a3 = "loadProductPromptCount be pid (loadDailyUsage be (set_isStarting True a))"
  assume h: "\<not> isStarting (scan a) \<and> \<not> isScanning (scan a) \<and> selectedProductId (products a) = Some pid
        \<and> pid \<noteq> [] \<and> hasAnyAuth (regions a)
        \<and> isUnlimited (dailyUsage (products ?a3))
        \<and> promptCount (products ?a3) \<noteq> 0"
  then have "\<not> quota_blocks (products ?a3)" by (simp add: quota_blocks_def)
  then show "startScan be a = startScan_try be pid (availableTests (products ?a3)) ?a3"
    using h by (simp add: startScan_def Let_def)
qed

theorem unlimited_bypasses_quota_gate_witness:
  "isUnlimited (dailyUsage (products (loadProductPromptCount example_backend ''p1''
       (loadDailyUsage example_backend (set_isStarting True example_app)))))
   \<and> remaining (dailyUsage (products (loadProductPromptCount example_backend ''p1''
       (loadDailyUsage example_backend (set_isStarting True example_app))))) = Num 0
   \<and> availableTests (products (loadProductPromptCount example_backend ''p1''
       (loadDailyUsage example_backend (set_isStarting True example_app)))) = Num 0
   \<and> \<not> quota_blocks (products (loadProductPromptCount example_backend ''p1''
       (loadDailyUsage example_backend (set_isStarting True example_app))))
   \<and> startScan example_backend example_app =
       startScan_try example_backend ''p1'' (Num 0)
         (loadProductPromptCount example_backend ''p1''
            (loadDailyUsage example_backend (set_isStarting True example_app)))
   \<and> invoked (startScan example_backend example_app) =
       [check_daily_usage, fetch_extension_prompts ''p1'', get_prompt_target_regions ''p1'',
        start_scan \<lparr>productId = ''p1'', samplesPerPrompt = 1, sp_platforms = [''chatgpt''],
                    maxTests = None\<rparr>]"
proof -
  let ?a3 = "loadProductPromptCount example_backend ''p1''
       (loadDailyUsage example_backend (set_isStarting True example_app))"
  have u: "isUnlimited (dailyUsage (products ?a3))" by (simp add: example_loaded)
  have r: "remaining (dailyUsage (products ?a3)) = Num 0" by (simp add: example_loaded)
  have av: "availableTests (products ?a3) = Num 0"
    by (simp add: availableTests_def example_loaded nullish_def)
  have g: "\<not> isStarting (scan example_app) \<and> \<not> isScanning (scan example_app)
        \<and> selectedProductId (products example_app) = Some ''p1''
        \<and> ''p1'' \<noteq> [] \<and> hasAnyAuth (regions example_app)
        \<and> isUnlimited (dailyUsage (products ?a3))
        \<and> promptCount (products ?a3) \<noteq> 0"
    using u by (simp add: example_loaded example_app_fields)
  note t = unlimited_bypasses_quota_gate[where be = example_backend and a = example_app
      and pid = "''p1''" and p = "products ?a3"]
  have "\<not> quota_blocks (products ?a3)"
    using t[THEN conjunct2, THEN conjunct2, THEN conjunct1] u by blast
  moreover have "startScan example_backend example_app =
       startScan_try example_backend ''p1'' (availableTests (products ?a3)) ?a3"
    using t[THEN conjunct2, THEN conjunct2, THEN conjunct2] g by blast
  ultimately show ?thesis using u r av example_started by simp
qed

text \<open>
  Claim C10. A call of \<open>startScan\<close> while a start is in flight or a scan is active returns at
  once: no command is invoked and no store changes.
\<close>

theorem startScan_reentrancy_guard:
  "isStarting (scan a) \<or> isScanning (scan a) \<Longrightarrow> startScan be a = a"
  by (simp add: startScan_def)

theorem startScan_reentrancy_guard_witness:
  "(isStarting (scan (set_isStarting True example_app))
      \<or> isScanning (scan (set_isStarting True example_app)))
   \<and> startScan example_backend (set_isStarting True example_app) = set_isStarting True example_app
   \<and> invoked (startScan example_backend (set_isStarting True example_app)) = []"
proof -
  have h: "isStarting (scan (set_isStarting True example_app))
      \<or> isScanning (scan (set_isStarting True example_app))"
    by (simp add: set_isStarting_def)
  show ?thesis
    using h startScan_reentrancy_guard[OF h, of example_backend]
    by (simp add: set_isStarting_def example_app_fields)
qed

section \<open>Scan errors\<close>

lemma str_includes_sublist: "str_includes s sub = sublist sub s"
  by (induction s) (simp_all add: sublist_Cons_right)

text \<open>
  Claim C7. \<open>handleError\<close> takes the payload for a cancellation exactly when its message,
  in lower case, contains \<open>cancel\<close>: then the modal is informational, otherwise it is an
  error. "Scan cancelled by user" is informational and "Network request failed" is an
  error, as a string or as the message of an object; upper case is lowered first. In every
  case the scanning flag is cleared and the view is the main one.
\<close>

theorem handleError_classifies:
  "\<not> isScanning (scan (handleError a error))
   \<and> currentView (ui (handleError a error)) = ''main''
   \<and> message_modal (ui (handleError a error)) =
        (if sublist ''cancel'' (toLowerCase (errorMsg_of error))
         then \<lparr>visible = True, title = ''Scan Cancelled'', message = errorMsg_of error, mtype = ''info''\<rparr>
         else \<lparr>visible = True, title = ''Scan Error'', message = errorMsg_of error, mtype = ''error''\<rparr>)
   \<and> mtype (message_modal (ui (handleError a (ErrorString ''Scan cancelled by user'')))) = ''info''
   \<and> mtype (message_modal (ui (handleError a (ErrorObject (Some ''Scan cancelled by user''))))) = ''info''
   \<and> mtype (message_modal (ui (handleError a (ErrorString ''Network request failed'')))) = ''error''
   \<and> mtype (message_modal (ui (handleError a (ErrorObject (Some ''Network request failed''))))) = ''error''
   \<and> mtype (message_modal (ui (handleError a (ErrorString ''SCAN CANCELLED'')))) = ''info''"
proof -
  have c: "str_includes (toLowerCase ''Scan cancelled by user'') ''cancel''"
    "str_includes (toLowerCase ''SCAN CANCELLED'') ''cancel''"
    by code_simp+
  have n: "\<not> str_includes (toLowerCase ''Network request failed'') ''cancel''"
    by (simp add: toLowerCase_def lower_char_def)
  show ?thesis
    using c n
    by (simp add: handleError_def Let_def showView_def showMessage_def errorMsg_of_def
          or_default_str_def str_includes_sublist)
qed

section \<open>The debounce\<close>

lemma single_slot_idle: "single_slot idle"
  by (simp add: single_slot_def idle_def)

lemma debouncedRefresh_pending:
  assumes "single_slot r"
  shows "pending (debouncedRefresh r) = [(nextHandle r, now r + 500)]"
    and "refreshTimer (debouncedRefresh r) = Some (nextHandle r)"
    and "nextHandle (debouncedRefresh r) = Suc (nextHandle r)"
    and "now (debouncedRefresh r) = now r"
    and "refreshes (debouncedRefresh r) = refreshes r"
  using assms
  by (auto simp: single_slot_def debouncedRefresh_def setTimeout_def clearTimeout_def Let_def
           split: option.splits list.splits)

lemma single_slot_debouncedRefresh: "single_slot r \<Longrightarrow> single_slot (debouncedRefresh r)"
  using debouncedRefresh_pending[of r] by (simp add: single_slot_def)

lemma single_slot_cleanup: "single_slot r \<Longrightarrow> single_slot (cleanupSubscriptions r)"
  by (auto simp: single_slot_def cleanupSubscriptions_def clearTimeout_def
           split: option.splits)

lemma advance_none:
  "next_due t (pending r) = None \<Longrightarrow> advance t r = r\<lparr>now := max (now r) t\<rparr>"
  by (subst advance.simps) simp

lemma advance_some:
  "next_due t (pending r) = Some e \<Longrightarrow>
     advance t r = advance t (refresh_callback (clearTimeout (fst e) (r\<lparr>now := max (now r) (snd e)\<rparr>)))"
  by (subst advance.simps) simp

lemma single_slot_advance: "single_slot r \<Longrightarrow> single_slot (advance t r)"
proof (induction t r rule: advance.induct)
  case (1 t r)
  show ?case
  proof (cases "next_due t (pending r)")
    case None
    then show ?thesis using "1.prems"
      by (simp add: advance_none single_slot_def split: option.splits)
  next
    case (Some e)
    let ?r' = "refresh_callback (clearTimeout (fst e) (r\<lparr>now := max (now r) (snd e)\<rparr>))"
    have "pending r \<noteq> []" using Some by auto
    then obtain h where h: "refreshTimer r = Some h" "map fst (pending r) = [h]"
      using "1.prems" by (auto simp: single_slot_def split: option.splits)
    then obtain d where d: "pending r = [(h, d)]" by (cases "pending r") auto
    then have "e = (h, d)" using Some by (simp split: if_splits)
    then have "single_slot ?r'"
      using "1.prems" d by (simp add: single_slot_def refresh_callback_def clearTimeout_def)
    then have "single_slot (advance t ?r')" using "1.IH"[OF Some] by simp
    then show ?thesis using Some by (simp add: advance_some)
  qed
qed

lemma single_slot_occur: "single_slot r \<Longrightarrow> single_slot (occur ev r)"
  by (cases ev)
     (simp_all add: signal_def single_slot_advance single_slot_debouncedRefresh single_slot_cleanup)

lemma single_slot_fold: "single_slot r \<Longrightarrow> single_slot (fold occur evs r)"
  by (induction evs arbitrary: r) (simp_all add: single_slot_occur)

lemma single_slot_length: "single_slot r \<Longrightarrow> length (pending r) \<le> 1"
  by (cases "pending r") (auto simp: single_slot_def split: option.splits)

lemma armed_single_slot: "armed t r \<Longrightarrow> single_slot r"
  by (auto simp: armed_def single_slot_def split: option.splits)

lemma armed_signal:
  assumes "armed t r" "t \<le> t'" "t' < t + 500"
  shows "armed t' (signal t' r) \<and> refreshes (signal t' r) = refreshes r"
proof -
  obtain h where h: "refreshTimer r = Some h" "0 < h" "pending r = [(h, t + 500)]" "now r = t"
    "0 < nextHandle r"
    using assms(1) by (auto simp: armed_def split: option.splits)
  have "next_due t' (pending r) = None" using h assms by simp
  then have a: "advance t' r = r\<lparr>now := t'\<rparr>" using h assms by (simp add: advance_none max_def)
  have s: "single_slot (r\<lparr>now := t'\<rparr>)" using h by (simp add: single_slot_def)
  show ?thesis
    using debouncedRefresh_pending[OF s] h
    by (simp add: signal_def a armed_def)
qed

lemma armed_burst:
  assumes "armed t r" "burst (t # ts)"
  shows "armed (last (t # ts)) (fold signal ts r) \<and> refreshes (fold signal ts r) = refreshes r"
  using assms
proof (induction ts arbitrary: t r)
  case Nil
  then show ?case by simp
next
  case (Cons t' ts)
  then have b: "t \<le> t'" "t' < t + 500" "burst (t' # ts)" by simp_all
  have s: "armed t' (signal t' r)" "refreshes (signal t' r) = refreshes r"
    using armed_signal[OF Cons.prems(1) b(1) b(2)] by simp_all
  show ?case using Cons.IH[OF s(1) b(3)] s(2) by simp
qed

lemma armed_advance:
  assumes "armed t r"
  shows "refreshes (advance T r) = refreshes r @ (if t + 500 \<le> T then [t + 500] else [])"
proof -
  obtain h where h: "refreshTimer r = Some h" "0 < h" "pending r = [(h, t + 500)]" "now r = t"
    using assms by (auto simp: armed_def split: option.splits)
  show ?thesis
  proof (cases "t + 500 \<le> T")
    case True
    then have n: "next_due T (pending r) = Some (h, t + 500)" using h by simp
    let ?r' = "refresh_callback (clearTimeout (fst (h, t + 500)) (r\<lparr>now := max (now r) (snd (h, t + 500))\<rparr>))"
    have p: "pending ?r' = []" using h by (simp add: refresh_callback_def clearTimeout_def)
    have "advance T r = advance T ?r'" using n by (rule advance_some)
    also have "\<dots> = ?r'\<lparr>now := max (now ?r') T\<rparr>" using p by (simp add: advance_none)
    finally show ?thesis using True h by (simp add: refresh_callback_def clearTimeout_def max_def)
  next
    case False
    then have "next_due T (pending r) = None" using h by simp
    then show ?thesis using False by (simp add: advance_none)
  qed
qed

lemma next_due_le: "next_due t q = Some e \<Longrightarrow> snd e \<le> t"
  by (induction q arbitrary: e) (auto split: option.splits if_splits)

lemma advance_now_handle:
  "now (advance t r) = max (now r) t \<and> nextHandle (advance t r) = nextHandle r"
proof (induction t r rule: advance.induct)
  case (1 t r)
  show ?case
  proof (cases "next_due t (pending r)")
    case None
    then show ?thesis by (simp add: advance_none)
  next
    case (Some e)
    have "snd e \<le> t" using Some by (rule next_due_le)
    then show ?thesis
      using "1.IH"[OF Some] Some
      by (simp add: advance_some refresh_callback_def clearTimeout_def max_def)
  qed
qed

text \<open>
  The first signal of a burst, in any state that keeps the invariant: the timers that are
  due by then run first, and the state is armed.
\<close>

lemma first_signal:
  assumes "single_slot r" "now r \<le> t"
  shows "armed t (signal t r) \<and> refreshes (signal t r) = refreshes (advance t r)"
proof -
  have s: "single_slot (advance t r)" using assms(1) by (rule single_slot_advance)
  have n: "now (advance t r) = t" using advance_now_handle[of t r] assms(2) by simp
  have h: "0 < nextHandle (advance t r)" using s by (simp add: single_slot_def)
  show ?thesis
    using debouncedRefresh_pending[OF s] n h by (simp add: signal_def armed_def)
qed

lemma burst_from_slot:
  assumes "single_slot r" "ts \<noteq> []" "burst ts" "now r \<le> hd ts"
  shows "refreshes (advance T (fold signal ts r)) =
     refreshes (advance (hd ts) r) @ (if last ts + 500 \<le> T then [last ts + 500] else [])"
proof -
  obtain t1 rest where ts: "ts = t1 # rest" using assms(2) by (cases ts) auto
  have f: "armed t1 (signal t1 r)" "refreshes (signal t1 r) = refreshes (advance t1 r)"
    using first_signal[OF assms(1), of t1] assms(4) ts by simp_all
  have "armed (last ts) (fold signal ts r)
        \<and> refreshes (fold signal ts r) = refreshes (advance t1 r)"
    using armed_burst[OF f(1), of rest] assms(3) f(2) ts by simp
  then show ?thesis
    using armed_advance[of "last ts" "fold signal ts r" T] ts by simp
qed

lemma idle_fields:
  "pending idle = []" "now idle = 0" "nextHandle idle = 1" "refreshTimer idle = None"
  "refreshes idle = []"
  by (simp_all add: idle_def)

lemma advance_idle: "refreshes (advance t idle) = []"
  by (simp add: advance_none idle_fields)

text \<open>Two signals 100 ms apart, long before the burst of the example.\<close>

lemma earlier_signals:
  "now (fold occur [Signal 0, Signal 100] idle) = 100"
  "refreshes (advance 1000 (fold occur [Signal 0, Signal 100] idle)) = [600]"
  by code_simp+

text \<open>
  Claim C3. The debounce is a single-slot timer. A signal cancels the pending timer, if
  any, and starts one of 500 ms. In every state the process can reach, a burst of signals,
  each less than 500 ms after the one before, causes one refresh and no more, 500 ms
  after the last signal: the refreshes are those that had happened by the first signal
  of the burst, and that one. From the start of the process it is the only refresh. And
  whatever the signals, the passing of time and the clean-ups, at most one refresh is
  pending.
\<close>

theorem debounce_single_refresh:
  "(ts \<noteq> [] \<longrightarrow> burst ts \<longrightarrow> now (fold occur evs idle) \<le> hd ts \<longrightarrow>
      refreshes (advance T (fold signal ts (fold occur evs idle))) =
        refreshes (advance (hd ts) (fold occur evs idle))
          @ (if last ts + 500 \<le> T then [last ts + 500] else []))
   \<and> (ts \<noteq> [] \<longrightarrow> burst ts \<longrightarrow>
      refreshes (advance T (fold signal ts idle)) =
        (if last ts + 500 \<le> T then [last ts + 500] else []))
   \<and> length (pending (fold occur evs idle)) \<le> 1
   \<and> pending (signal t (fold occur evs idle)) =
        [(nextHandle (fold occur evs idle), max (now (fold occur evs idle)) t + 500)]"
proof (intro conjI impI)
  assume "ts \<noteq> []" "burst ts" "now (fold occur evs idle) \<le> hd ts"
  then show "refreshes (advance T (fold signal ts (fold occur evs idle))) =
        refreshes (advance (hd ts) (fold occur evs idle))
          @ (if last ts + 500 \<le> T then [last ts + 500] else [])"
    by (intro burst_from_slot single_slot_fold single_slot_idle)
next
  assume "ts \<noteq> []" "burst ts"
  then show "refreshes (advance T (fold signal ts idle)) =
      (if last ts + 500 \<le> T then [last ts + 500] else [])"
    using burst_from_slot[OF single_slot_idle, of ts T] by (simp add: idle_fields advance_idle)
next
  show "length (pending (fold occur evs idle)) \<le> 1"
    by (intro single_slot_length single_slot_fold single_slot_idle)
next
  have s: "single_slot (advance t (fold occur evs idle))"
    by (intro single_slot_advance single_slot_fold single_slot_idle)
  show "pending (signal t (fold occur evs idle)) =
      [(nextHandle (fold occur evs idle), max (now (fold occur evs idle)) t + 500)]"
    using debouncedRefresh_pending(1)[OF s] advance_now_handle[of t "fold occur evs idle"]
    by (simp add: signal_def)
qed

theorem debounce_single_refresh_witness:
  "[1000, 1100, 1200] \<noteq> [] \<and> burst [1000, 1100, 1200]
   \<and> now (fold occur [Signal 0, Signal 100] idle) \<le> hd [1000, 1100, 1200]
   \<and> refreshes (advance 5000 (fold signal [1000, 1100, 1200]
        (fold occur [Signal 0, Signal 100] idle))) = [600, 1700]
   \<and> refreshes (advance 5000 (fold signal [1000, 1100, 1200] idle)) = [1700]
   \<and> refreshes (advance 1699 (fold signal [1000, 1100, 1200] idle)) = []"
proof -
  have b: "burst [1000, 1100, 1200]" by simp
  have n: "[1000, 1100, 1200::nat] \<noteq> []" by simp
  have h: "now (fold occur [Signal 0, Signal 100] idle) \<le> hd [1000, 1100, 1200]"
    by code_simp
  have e2: "refreshes (advance 1000 (signal 100 (signal 0 idle))) = [600]"
    using earlier_signals(2) by simp
  have "refreshes (advance 5000 (fold signal [1000, 1100, 1200]
        (fold occur [Signal 0, Signal 100] idle))) =
      refreshes (advance (hd [1000, 1100, 1200]) (fold occur [Signal 0, Signal 100] idle))
        @ (if last [1000, 1100, 1200] + 500 \<le> (5000::nat) then [last [1000, 1100, 1200] + 500]
           else [])"
    using debounce_single_refresh[where ts = "[1000, 1100, 1200]" and T = 5000
        and evs = "[Signal 0, Signal 100]", THEN conjunct1, rule_format, OF n b h] .
  then have c1: "refreshes (advance 5000 (fold signal [1000, 1100, 1200]
        (fold occur [Signal 0, Signal 100] idle))) = [600, 1700]"
    by (simp add: e2)
  have c2: "refreshes (advance 5000 (fold signal [1000, 1100, 1200] idle)) = [1700]"
    using debounce_single_refresh[where ts = "[1000, 1100, 1200]" and T = 5000,
        THEN conjunct2, THEN conjunct1, rule_format, OF n b] by simp
  have c3: "refreshes (advance 1699 (fold signal [1000, 1100, 1200] idle)) = []"
    using debounce_single_refresh[where ts = "[1000, 1100, 1200]" and T = 1699,
        THEN conjunct2, THEN conjunct1, rule_format, OF n b] by simp
  show ?thesis using b h c1 c2 c3 by simp
qed

end
